theory Spec2Isabelle
  imports Complex_Main
begin

section \<open>Data model of trading\_bot.py\<close>

text \<open>
  Numbers. Prices, budgets, thresholds and percentages are Python floats; here they are
  exact rationals (\<open>rat\<close>), share counts are \<open>int\<close>. The model follows the control
  flow and the state changes of the code, not the value a binary64 operation rounds to:
  where the code computes \<open>budget * max_position_size / price\<close> or sums and averages
  a group of rows, the model's number can differ from the code's in the last place, and
  a share count or a threshold comparison can differ with it. The result of Python's
  \<open>sum\<close> over floats also depends on the interpreter (plain left-to-right addition
  before 3.12, compensated summation from 3.12 on). Infinities and NaN are outside the
  model. No statement below is about such a value: the theorems are about which branch
  is taken, which orders are submitted and which parts of the state change. Division
  follows Python's number semantics: a zero divisor raises \<open>ZeroDivisionError\<close>.
\<close>

text \<open>
  One scraped row, the dictionary appended by \<open>scrape_openinsider\<close>. The key
  \<open>"price"\<close> is the field \<open>tx_price\<close>; the other fields carry the key's name.
\<close>

record insider_transaction =
  company_name :: string
  insider_name :: string
  title :: string
  trade_type :: string
  tx_price :: rat
  qty :: int
  own_change :: rat
  total_value :: rat

text \<open>
  The value stored under a ticker in \<open>self.positions\<close>: \<open>buy_stock\<close> is the only
  place that creates one, always with the three keys.
\<close>

record position =
  quantity :: int
  buy_price :: rat
  highest_price :: rat

text \<open>
  The dictionary built by \<open>record_trade\<close>, keys \<open>type\<close>, \<open>ticker\<close>,
  \<open>quantity\<close>, \<open>price\<close>, \<open>date\<close>.
\<close>

record trade =
  tr_type :: string
  tr_ticker :: string
  tr_quantity :: int
  tr_price :: rat
  tr_date :: string

datatype side = Buy | Sell

text \<open>
  A call of \<open>self.api.submit_order\<close>: symbol, qty, side (type is always
  \<open>"market"\<close>, time\_in\_force always \<open>"gtc"\<close>).
\<close>

type_synonym order = "string \<times> int \<times> side"

text \<open>
  The world outside the process. Every external call (broker request, wall clock) is
  answered as a function of the number of external calls made before it, so that two
  consecutive requests for the same ticker may be answered differently.
  \<open>get_bars n t = None\<close>, \<open>get_clock n = None\<close> and
  \<open>submit_order n o = False\<close> mean that the call raises.
\<close>

record api =
  get_bars :: "nat \<Rightarrow> string \<Rightarrow> rat option"
  submit_order :: "nat \<Rightarrow> order \<Rightarrow> bool"
  get_clock :: "nat \<Rightarrow> bool option"
  now :: "nat \<Rightarrow> string"

text \<open>
  The mutable state: the attributes of the \<open>TradingBot\<close> object, the module globals
  \<open>trade_history\<close> and \<open>lock\<close>, the log of the orders handed to
  \<open>submit_order\<close>, and the count of external calls made so far.
  \<open>positions\<close> is a Python dict: an association list in insertion order.
\<close>

record bot =
  budget :: rat
  positions :: "(string \<times> position) list"
  is_running :: bool
  trade_history :: "trade list"
  lock_held :: bool
  orders :: "order list"
  calls :: nat

text \<open>
  The exceptions of the model: \<open>APIError\<close> stands for whatever the broker client raises
  from \<open>submit_order\<close>; \<open>RuntimeError\<close> is "dictionary changed size during
  iteration".
\<close>

datatype error = ZeroDivisionError | RuntimeError | KeyError | APIError

text \<open>
  How a call ends, with the state it leaves behind: it returns, it raises, or the
  thread blocks for ever acquiring a lock that is already held (\<open>lock\<close> is a
  \<open>threading.Lock\<close>, which is not reentrant).
\<close>

datatype outcome = Returns bot | Raises error bot | Blocks bot

fun state_of :: "outcome \<Rightarrow> bot" where
  "state_of (Returns s) = s"
| "state_of (Raises e s) = s"
| "state_of (Blocks s) = s"

text \<open>
  A loop observed for a bounded number of iterations: it has ended, or it is still
  iterating, in the state reached.
\<close>

datatype loop_outcome = Finished outcome | Running bot

fun loop_state :: "loop_outcome \<Rightarrow> bot" where
  "loop_state (Finished r) = state_of r"
| "loop_state (Running s) = s"

section \<open>Helpers of the embedding\<close>

text \<open>Python's \<open>int(x)\<close> on a number: truncation towards zero.\<close>

definition py_int :: "rat \<Rightarrow> int" where
  "py_int x = (if 0 \<le> x then \<lfloor>x\<rfloor> else \<lceil>x\<rceil>)"

text \<open>\<open>with lock: body\<close>. The lock is released when the body returns or raises.\<close>

definition with_lock :: "(bot \<Rightarrow> outcome) \<Rightarrow> bot \<Rightarrow> outcome" where
  "with_lock body s =
     (if lock_held s then Blocks s
      else case body (s\<lparr>lock_held := True\<rparr>) of
             Returns s' \<Rightarrow> Returns (s'\<lparr>lock_held := False\<rparr>)
           | Raises e s' \<Rightarrow> Raises e (s'\<lparr>lock_held := False\<rparr>)
           | other \<Rightarrow> other)"

text \<open>\<open>try: ... except Exception as e: logging.error(...)\<close>.\<close>

definition except_Exception :: "outcome \<Rightarrow> outcome" where
  "except_Exception r = (case r of Raises e s \<Rightarrow> Returns s | other \<Rightarrow> other)"

text \<open>Sequencing: the rest runs only when the first part returns.\<close>

definition and_then :: "outcome \<Rightarrow> (bot \<Rightarrow> outcome) \<Rightarrow> outcome" where
  "and_then r k = (case r of Returns s \<Rightarrow> k s | other \<Rightarrow> other)"

text \<open>\<open>d[k] = v\<close>: an existing key keeps its place, a new key goes last.\<close>

fun dict_set :: "'k \<Rightarrow> 'v \<Rightarrow> ('k \<times> 'v) list \<Rightarrow> ('k \<times> 'v) list" where
  "dict_set k v [] = [(k, v)]"
| "dict_set k v ((k', v') # d) = (if k' = k then (k, v) # d else (k', v') # dict_set k v d)"

text \<open>\<open>d[k]["highest_price"] = c\<close>.\<close>

definition set_highest_price :: "string \<Rightarrow> rat \<Rightarrow> (string \<times> position) list \<Rightarrow> (string \<times> position) list" where
  "set_highest_price k c d =
     map (\<lambda>(k', v). if k' = k then (k', v\<lparr>highest_price := c\<rparr>) else (k', v)) d"

section \<open>The functions of trading\_bot.py\<close>

subsection \<open>record\_trade\<close>

definition record_trade :: "api \<Rightarrow> string \<Rightarrow> string \<Rightarrow> int \<Rightarrow> rat \<Rightarrow> bot \<Rightarrow> outcome" where
  "record_trade a ty ticker q price s =
     (let trade = \<lparr>tr_type = ty, tr_ticker = ticker, tr_quantity = q, tr_price = price,
                   tr_date = now a (calls s)\<rparr>
      in with_lock (\<lambda>s'. Returns (s'\<lparr>trade_history := trade_history s' @ [trade]\<rparr>))
           (s\<lparr>calls := Suc (calls s)\<rparr>))"

subsection \<open>get\_current\_price, is\_market\_open\<close>

definition get_current_price :: "api \<Rightarrow> string \<Rightarrow> bot \<Rightarrow> rat \<times> bot" where
  "get_current_price a ticker s =
     (case get_bars a (calls s) ticker of
        Some c \<Rightarrow> (c, s\<lparr>calls := Suc (calls s)\<rparr>)
      | None \<Rightarrow> (0, s\<lparr>calls := Suc (calls s)\<rparr>))"

definition is_market_open :: "api \<Rightarrow> bot \<Rightarrow> bool \<times> bot" where
  "is_market_open a s =
     (case get_clock a (calls s) of
        Some b \<Rightarrow> (b, s\<lparr>calls := Suc (calls s)\<rparr>)
      | None \<Rightarrow> (False, s\<lparr>calls := Suc (calls s)\<rparr>))"

subsection \<open>buy\_stock\<close>

text \<open>
  The share count \<open>q\<close> is the truncation of an exact quotient here and of a binary64
  quotient in the code, and can differ from the code's by one; the branches, the order
  submission, the locking and the recording are those of the code.
\<close>

definition buy_stock :: "api \<Rightarrow> string \<Rightarrow> rat \<Rightarrow> rat \<Rightarrow> bot \<Rightarrow> outcome" where
  "buy_stock a ticker price max_position_size s =
     (if ticker \<in> set (map fst (positions s)) then Returns s
      else if price = 0 then Raises ZeroDivisionError s
      else
        let max_spend = budget s * max_position_size;
            buying_power = max_spend / price;
            q = py_int buying_power
        in if q > 0 then
             (let s1 = s\<lparr>orders := orders s @ [(ticker, q, Buy)], calls := Suc (calls s)\<rparr>
              in except_Exception
                   (if submit_order a (calls s) (ticker, q, Buy) then
                      and_then
                        (with_lock
                           (\<lambda>s'. Returns (s'\<lparr>positions :=
                                     dict_set ticker
                                       \<lparr>quantity = q, buy_price = price, highest_price = price\<rparr>
                                       (positions s'),
                                   budget := budget s' - of_int q * price\<rparr>))
                           s1)
                        (record_trade a ''buy'' ticker q price)
                    else Raises APIError s1))
           else Returns s)"

subsection \<open>sell\_stock\<close>

definition sell_stock :: "api \<Rightarrow> string \<Rightarrow> bot \<Rightarrow> outcome" where
  "sell_stock a ticker s =
     (case map_of (positions s) ticker of
        None \<Rightarrow> Returns s
      | Some info \<Rightarrow>
          (let q = quantity info;
               s1 = s\<lparr>orders := orders s @ [(ticker, q, Sell)], calls := Suc (calls s)\<rparr>
           in except_Exception
                (if submit_order a (calls s) (ticker, q, Sell) then
                   with_lock
                     (\<lambda>s2. let (credit_price, s3) = get_current_price a ticker s2;
                                s4 = s3\<lparr>budget := budget s3 + of_int q * credit_price\<rparr>;
                                (trade_price, s5) = get_current_price a ticker s4
                            in and_then (record_trade a ''sell'' ticker q trade_price s5)
                                 (\<lambda>s6. if ticker \<in> set (map fst (positions s6))
                                        then Returns (s6\<lparr>positions :=
                                               filter (\<lambda>(k, v). k \<noteq> ticker) (positions s6)\<rparr>)
                                        else Raises KeyError s6))
                     s1
                 else Raises APIError s1)))"

subsection \<open>monitor\_prices\<close>

text \<open>
  The body of the \<open>for ticker, info in self.positions.items()\<close> loop for the entry at
  index \<open>i\<close>. \<open>highest_price\<close> is read from \<open>info\<close> before the stored value is
  raised, and the drop is computed from the value read.
\<close>

definition monitor_item :: "api \<Rightarrow> rat \<Rightarrow> rat \<Rightarrow> nat \<Rightarrow> bot \<Rightarrow> outcome" where
  "monitor_item a gain_threshold drop_threshold i s =
     (let (ticker, info) = positions s ! i;
          (current_price, s1) = get_current_price a ticker s
      in if buy_price info = 0 then Raises ZeroDivisionError s1
         else
           let gain = (current_price - buy_price info) / buy_price info * 100
           in and_then
                (if current_price > highest_price info
                 then with_lock
                        (\<lambda>s'. Returns (s'\<lparr>positions :=
                                  set_highest_price ticker current_price (positions s')\<rparr>))
                        s1
                 else Returns s1)
                (\<lambda>s2. if gain \<ge> gain_threshold then
                         (if highest_price info = 0 then Raises ZeroDivisionError s2
                          else
                            let drop = (highest_price info - current_price) / highest_price info * 100
                            in if drop \<ge> drop_threshold then sell_stock a ticker s2
                               else Returns s2)
                       else Returns s2))"

text \<open>
  The \<open>for\<close> loop over the dict view. \<open>n\<close> is the size of the dict when the iterator
  was created; every request for the next entry, the last one included, first compares
  the dict's size with it and raises \<open>RuntimeError\<close> when it has changed.
\<close>

fun monitor_items :: "api \<Rightarrow> rat \<Rightarrow> rat \<Rightarrow> nat \<Rightarrow> nat list \<Rightarrow> bot \<Rightarrow> outcome" where
  "monitor_items a gain_threshold drop_threshold n [] s =
     (if length (positions s) \<noteq> n then Raises RuntimeError s else Returns s)"
| "monitor_items a gain_threshold drop_threshold n (i # rest) s =
     (if length (positions s) \<noteq> n then Raises RuntimeError s
      else and_then (monitor_item a gain_threshold drop_threshold i s)
             (monitor_items a gain_threshold drop_threshold n rest))"

text \<open>One pass through the body of the \<open>while\<close> loop (the sleep is not modelled).\<close>

definition monitor_poll :: "api \<Rightarrow> rat \<Rightarrow> rat \<Rightarrow> bot \<Rightarrow> outcome" where
  "monitor_poll a gain_threshold drop_threshold s =
     (let (is_open, s1) = is_market_open a s
      in if is_open
         then monitor_items a gain_threshold drop_threshold (length (positions s1))
                [0 ..< length (positions s1)] s1
         else Returns s1)"

text \<open>
  \<open>while self.positions and self.is_running\<close>, observed for \<open>polls\<close> passes: the
  result is \<open>Running\<close> when the loop condition still holds after them. Another
  thread's \<open>stop()\<close> is not part of the model.
\<close>

fun monitor_prices :: "nat \<Rightarrow> api \<Rightarrow> rat \<Rightarrow> rat \<Rightarrow> bot \<Rightarrow> loop_outcome" where
  "monitor_prices 0 a gain_threshold drop_threshold s =
     (if positions s \<noteq> [] \<and> is_running s then Running s else Finished (Returns s))"
| "monitor_prices (Suc polls) a gain_threshold drop_threshold s =
     (if positions s \<noteq> [] \<and> is_running s
      then case monitor_poll a gain_threshold drop_threshold s of
             Returns s' \<Rightarrow> monitor_prices polls a gain_threshold drop_threshold s'
           | other \<Rightarrow> Finished other
      else Finished (Returns s))"

subsection \<open>filter\_significant\_transactions\<close>

text \<open>
  \<open>insider_data\<close> is a dict from ticker to list of rows, here an association list in
  the dict's iteration order. \<open>significant\<close> is the accumulator
  \<open>significant_stocks\<close>. The sum and the average are exact here and floating-point
  in the code, so a group that sits on a threshold can be classified differently; the
  division by the length of an empty group raises in both.
\<close>

fun filter_loop ::
  "(string \<times> insider_transaction list) list \<Rightarrow> rat \<Rightarrow> rat \<Rightarrow> rat \<Rightarrow> string list
     \<Rightarrow> error + string list" where
  "filter_loop [] min_value min_insiders min_own_change significant = Inr significant"
| "filter_loop ((ticker, transactions) # rest) min_value min_insiders min_own_change significant =
     (let total = sum_list (map total_value transactions);
          unique_insiders = length (remdups (map insider_name transactions))
      in if length transactions = 0 then Inl ZeroDivisionError
         else
           let avg_own_change =
                 sum_list (map own_change transactions) / of_nat (length transactions)
           in if total \<ge> min_value \<and> of_nat unique_insiders \<ge> min_insiders
                   \<and> avg_own_change \<ge> min_own_change
              then filter_loop rest min_value min_insiders min_own_change (significant @ [ticker])
              else filter_loop rest min_value min_insiders min_own_change significant)"

definition filter_significant_transactions ::
  "(string \<times> insider_transaction list) list \<Rightarrow> rat \<Rightarrow> rat \<Rightarrow> rat \<Rightarrow> error + string list" where
  "filter_significant_transactions insider_data min_value min_insiders min_own_change =
     filter_loop insider_data min_value min_insiders min_own_change []"

subsection \<open>The buy pass of run\_trading\_cycle\<close>


section \<open>Predicates of the specification\<close>

text \<open>
  The position store is a dict (no ticker twice) and no position's peak lies below its
  buy price.
\<close>

definition peak_invariant :: "bot \<Rightarrow> bool" where
  "peak_invariant s \<longleftrightarrow>
     distinct (map fst (positions s))
     \<and> (\<forall>(t, p) \<in> set (positions s). buy_price p \<le> highest_price p)"

text \<open>
  Every position of the later state \<open>s'\<close> is a position of the earlier state \<open>s\<close>
  for the same ticker, with the same quantity and buy price and a peak that has not
  fallen.
\<close>

definition peaks_grow :: "bot \<Rightarrow> bot \<Rightarrow> bool" where
  "peaks_grow s s' \<longleftrightarrow>
     (\<forall>(t, p') \<in> set (positions s').
        \<exists>p. (t, p) \<in> set (positions s) \<and> quantity p' = quantity p
             \<and> buy_price p' = buy_price p \<and> highest_price p \<le> highest_price p')"

definition step_rel :: "bot \<Rightarrow> bot \<Rightarrow> bool" where
  "step_rel s s' \<longleftrightarrow>
     (distinct (map fst (positions s))
      \<longrightarrow> peaks_grow s s' \<and> distinct (map fst (positions s')))"

section \<open>Concrete inputs\<close>

text \<open>
  A broker whose \<open>n\<close>-th call, when it asks for a price, is answered by \<open>bars n\<close>,
  that accepts every order or none, and whose market is open.
\<close>

definition broker_stub :: "(nat \<Rightarrow> rat option) \<Rightarrow> bool \<Rightarrow> api" where
  "broker_stub bars accepts =
     \<lparr>get_bars = (\<lambda>n ticker. bars n), submit_order = (\<lambda>n ord. accepts),
      get_clock = (\<lambda>n. Some True), now = (\<lambda>n. ''2024-01-02 10:00:00'')\<rparr>"

text \<open>A running bot with the given budget and positions, an empty history and a free lock.\<close>

definition bot_with :: "rat \<Rightarrow> (string \<times> position) list \<Rightarrow> bot" where
  "bot_with b ps =
     \<lparr>budget = b, positions = ps, is_running = True, trade_history = [], lock_held = False,
      orders = [], calls = 0\<rparr>"

section \<open>Auxiliary facts\<close>

lemma dict_set_new: "k \<notin> set (map fst d) \<Longrightarrow> dict_set k v d = d @ [(k, v)]"
  by (induction d) auto

lemma step_rel_refl: "step_rel s s"
  by (auto simp: step_rel_def peaks_grow_def)

lemma step_rel_same: "positions s' = positions s \<Longrightarrow> step_rel s s'"
  by (auto simp: step_rel_def peaks_grow_def)

lemma step_rel_trans: "step_rel s s' \<Longrightarrow> step_rel s' s'' \<Longrightarrow> step_rel s s''"
  unfolding step_rel_def peaks_grow_def by fastforce

lemma step_rel_invariant: "peak_invariant s \<Longrightarrow> step_rel s s' \<Longrightarrow> peak_invariant s'"
  unfolding step_rel_def peaks_grow_def peak_invariant_def by fastforce

lemma get_current_price_state: "snd (get_current_price a t s) = s\<lparr>calls := Suc (calls s)\<rparr>"
  by (simp add: get_current_price_def split: option.splits)

lemma sell_stock_positions:
  "positions (state_of (sell_stock a t s)) = positions s
   \<or> positions (state_of (sell_stock a t s)) = filter (\<lambda>(k, v). k \<noteq> t) (positions s)"
  by (simp add: sell_stock_def with_lock_def except_Exception_def and_then_def record_trade_def
      get_current_price_def Let_def split: option.splits prod.splits)

lemma step_rel_filter:
  "positions s' = filter (\<lambda>(k, v). k \<noteq> t) (positions s) \<Longrightarrow> step_rel s s'"
  by (auto simp: step_rel_def peaks_grow_def distinct_map_filter)


lemma sell_stock_step: "step_rel s (state_of (sell_stock a t s))"
  using sell_stock_positions [of a t s] by (auto intro: step_rel_same step_rel_filter)

lemma set_highest_price_keys: "map fst (set_highest_price k c d) = map fst d"
  by (induction d) (auto simp: set_highest_price_def)

lemma set_highest_price_step:
  assumes "(k, info) \<in> set (positions s)" "highest_price info \<le> c"
    and "positions s' = set_highest_price k c (positions s)"
  shows "step_rel s s'"
proof -
  have keys: "map fst (positions s') = map fst (positions s)"
    using assms(3) by (simp add: set_highest_price_keys)
  have "peaks_grow s s'" if d: "distinct (map fst (positions s))"
    unfolding peaks_grow_def
  proof (clarify)
    fix t p' assume "(t, p') \<in> set (positions s')"
    then obtain v where v: "(t, v) \<in> set (positions s)"
      and p': "p' = (if t = k then v\<lparr>highest_price := c\<rparr> else v)"
      using assms(3) by (auto simp: set_highest_price_def split: if_splits)
    show "\<exists>p. (t, p) \<in> set (positions s) \<and> quantity p' = quantity p
             \<and> buy_price p' = buy_price p \<and> highest_price p \<le> highest_price p'"
    proof (cases "t = k")
      case True
      with v assms(1) d have "v = info" by (metis eq_key_imp_eq_value)
      with True v p' assms(2) show ?thesis by (intro exI [of _ v]) simp
    next
      case False
      with v p' show ?thesis by (intro exI [of _ v]) simp
    qed
  qed
  with keys show ?thesis by (simp add: step_rel_def)
qed

lemma nth_positions_mem:
  "i < length (positions s) \<Longrightarrow> positions s ! i = (t, info) \<Longrightarrow> (t, info) \<in> set (positions s)"
  by (metis nth_mem)

lemma monitor_item_step:
  assumes "i < length (positions s)"
  shows "step_rel s (state_of (monitor_item a gt dt i s))"
proof -
  obtain t info where ti: "positions s ! i = (t, info)" by (cases "positions s ! i")
  obtain c s1 where g: "get_current_price a t s = (c, s1)" by (cases "get_current_price a t s")
  then have s1: "s1 = s\<lparr>calls := Suc (calls s)\<rparr>"
    using get_current_price_state [of a t s] by simp
  have mem: "(t, info) \<in> set (positions s)" using assms ti by (rule nth_positions_mem)
  define s2 where "s2 = state_of (if c > highest_price info
                 then with_lock
                        (\<lambda>s'. Returns (s'\<lparr>positions :=
                                  set_highest_price t c (positions s')\<rparr>))
                        s1
                 else Returns s1)"
  have r12: "step_rel s s2"
  proof (cases "c > highest_price info \<and> \<not> lock_held s1")
    case True
    then have "positions s2 = set_highest_price t c (positions s)"
      by (simp add: s2_def with_lock_def s1)
    with mem True show ?thesis by (intro set_highest_price_step [of t info s c]) simp_all
  next
    case False
    then have "positions s2 = positions s"
      by (auto simp: s2_def with_lock_def s1)
    then show ?thesis by (rule step_rel_same)
  qed
  have "state_of (monitor_item a gt dt i s) = s1 \<or> state_of (monitor_item a gt dt i s) = s2
        \<or> state_of (monitor_item a gt dt i s) = state_of (sell_stock a t s2)"
    by (simp add: monitor_item_def ti g s2_def and_then_def with_lock_def Let_def)
  moreover have "step_rel s s1" by (rule step_rel_same) (simp add: s1)
  moreover have "step_rel s (state_of (sell_stock a t s2))"
    using r12 sell_stock_step by (rule step_rel_trans)
  ultimately show ?thesis using r12 by auto
qed

lemma step_rel_and_then:
  assumes "step_rel s (state_of r)" and "\<And>s'. r = Returns s' \<Longrightarrow> step_rel s' (state_of (k s'))"
  shows "step_rel s (state_of (and_then r k))"
  using assms by (cases r) (auto simp: and_then_def intro: step_rel_trans)

lemma monitor_items_step:
  assumes "\<forall>i \<in> set idx. i < n"
  shows "step_rel s (state_of (monitor_items a gt dt n idx s))"
  using assms
proof (induction idx arbitrary: s)
  case Nil
  show ?case by (simp add: step_rel_refl)
next
  case (Cons i rest)
  show ?case
  proof (cases "length (positions s) = n")
    case True
    with Cons.prems have "step_rel s (state_of (monitor_item a gt dt i s))"
      by (intro monitor_item_step) simp
    moreover have "step_rel s' (state_of (monitor_items a gt dt n rest s'))" for s'
      using Cons.prems by (intro Cons.IH) simp
    ultimately show ?thesis using True by (simp add: step_rel_and_then)
  next
    case False
    then show ?thesis by (simp add: step_rel_refl)
  qed
qed

lemma monitor_poll_step: "step_rel s (state_of (monitor_poll a gt dt s))"
proof -
  obtain b s1 where m: "is_market_open a s = (b, s1)" by (cases "is_market_open a s")
  then have s1: "s1 = s\<lparr>calls := Suc (calls s)\<rparr>"
    by (auto simp: is_market_open_def split: option.splits)
  have a: "step_rel s s1" by (rule step_rel_same) (simp add: s1)
  have "step_rel s1 (state_of (monitor_items a gt dt (length (positions s1))
                [0 ..< length (positions s1)] s1))"
    by (rule monitor_items_step) simp
  with a have "step_rel s (state_of (monitor_items a gt dt (length (positions s1))
                [0 ..< length (positions s1)] s1))"
    by (rule step_rel_trans)
  with a show ?thesis by (simp add: monitor_poll_def m)
qed

lemma monitor_prices_step: "step_rel s (loop_state (monitor_prices n a gt dt s))"
proof (induction n arbitrary: s)
  case 0
  show ?case by (simp add: step_rel_refl)
next
  case (Suc n)
  have p: "step_rel s (state_of (monitor_poll a gt dt s))" by (rule monitor_poll_step)
  show ?case
  proof (cases "monitor_poll a gt dt s")
    case (Returns s')
    with p have "step_rel s s'" by simp
    then have "step_rel s (loop_state (monitor_prices n a gt dt s'))"
      using Suc.IH by (rule step_rel_trans)
    with Returns show ?thesis by (simp add: step_rel_refl)
  next
    case (Raises e s')
    with p show ?thesis by (simp add: step_rel_refl)
  next
    case (Blocks s')
    with p show ?thesis by (simp add: step_rel_refl)
  qed
qed

lemma monitor_prices_add:
  "monitor_prices (n + m) a gt dt s =
     (case monitor_prices n a gt dt s of
        Running s' \<Rightarrow> monitor_prices m a gt dt s'
      | Finished r \<Rightarrow> Finished r)"
proof (induction n arbitrary: s)
  case 0
  show ?case by (cases m) simp_all
next
  case (Suc n)
  show ?case
    by (cases "monitor_poll a gt dt s") (simp_all add: Suc.IH)
qed

lemma monitor_prices_later:
  "step_rel (loop_state (monitor_prices n a gt dt s))
     (loop_state (monitor_prices (n + m) a gt dt s))"
  by (cases "monitor_prices n a gt dt s")
     (simp_all add: monitor_prices_add step_rel_refl monitor_prices_step)

lemma buy_stock_positions:
  "positions (state_of (buy_stock a t price mps s)) = positions s
   \<or> (t \<notin> set (map fst (positions s))
      \<and> (\<exists>q. positions (state_of (buy_stock a t price mps s)) =
             positions s @ [(t, \<lparr>quantity = q, buy_price = price, highest_price = price\<rparr>)]))"
  by (simp add: buy_stock_def with_lock_def except_Exception_def and_then_def record_trade_def
      Let_def dict_set_new)

lemma buy_stock_invariant:
  assumes "peak_invariant s"
  shows "peak_invariant (state_of (buy_stock a t price mps s))"
  using buy_stock_positions [of a t price mps s] assms
  by (auto simp: peak_invariant_def)

section \<open>The signal filter\<close>

text \<open>
  C1. A ticker whose transaction list is empty should be skipped without a division
  error. The code divides by \<open>len(transactions)\<close> unguarded: on the mapping
  \<open>{"AAPL": []}\<close> the call raises \<open>ZeroDivisionError\<close> and returns no list at all.
\<close>

theorem filter_empty_group_raises:
  "filter_significant_transactions [(''AAPL'', [])] 100000 2 5 = Inl ZeroDivisionError"
  by (simp add: filter_significant_transactions_def)

section \<open>Buying\<close>

text \<open>
  C7. \<open>buy_stock\<close> on a ticker that is already held returns at once: the positions, the
  budget, the trade history and the log of submitted orders are those of before.
\<close>

theorem buy_stock_already_held:
  assumes "ticker \<in> set (map fst (positions s))"
  shows "buy_stock a ticker price max_position_size s = Returns s"
  using assms by (simp add: buy_stock_def)

theorem buy_stock_already_held_witness:
  "''AAPL'' \<in> set (map fst (positions
      (bot_with 8000 [(''AAPL'', \<lparr>quantity = 40, buy_price = 50, highest_price = 50\<rparr>)])))
   \<and> buy_stock (broker_stub (\<lambda>n. Some 60) True) ''AAPL'' 60 (1 / 5)
       (bot_with 8000 [(''AAPL'', \<lparr>quantity = 40, buy_price = 50, highest_price = 50\<rparr>)])
     = Returns (bot_with 8000 [(''AAPL'', \<lparr>quantity = 40, buy_price = 50, highest_price = 50\<rparr>)])"
proof -
  have h: "''AAPL'' \<in> set (map fst (positions
      (bot_with 8000 [(''AAPL'', \<lparr>quantity = 40, buy_price = 50, highest_price = 50\<rparr>)])))"
    by (simp add: bot_with_def)
  show ?thesis
    using h buy_stock_already_held [OF h, of "broker_stub (\<lambda>n. Some 60) True" 60 "1 / 5"]
    by simp
qed

section \<open>Selling\<close>

text \<open>
  C9. \<open>sell_stock\<close> on a ticker without a position returns at once: no order is
  submitted and the budget, the positions and the trade history are those of before.
\<close>

theorem sell_stock_not_held:
  assumes "ticker \<notin> set (map fst (positions s))"
  shows "sell_stock a ticker s = Returns s"
proof -
  from assms have "map_of (positions s) ticker = None"
    by (simp add: map_of_eq_None_iff)
  then show ?thesis by (simp add: sell_stock_def)
qed

theorem sell_stock_not_held_witness:
  "''MSFT'' \<notin> set (map fst (positions
      (bot_with 8000 [(''AAPL'', \<lparr>quantity = 40, buy_price = 50, highest_price = 50\<rparr>)])))
   \<and> sell_stock (broker_stub (\<lambda>n. Some 60) True) ''MSFT''
       (bot_with 8000 [(''AAPL'', \<lparr>quantity = 40, buy_price = 50, highest_price = 50\<rparr>)])
     = Returns (bot_with 8000 [(''AAPL'', \<lparr>quantity = 40, buy_price = 50, highest_price = 50\<rparr>)])"
proof -
  have h: "''MSFT'' \<notin> set (map fst (positions
      (bot_with 8000 [(''AAPL'', \<lparr>quantity = 40, buy_price = 50, highest_price = 50\<rparr>)])))"
    by (simp add: bot_with_def)
  show ?thesis
    using h sell_stock_not_held [OF h, of "broker_stub (\<lambda>n. Some 60) True"]
    by simp
qed



text \<open>
  C2. A sell whose order is accepted should credit the budget and write the sell record
  with one fetched price. \<open>sell_stock\<close> asks the broker twice: with 10 shares held, a
  first answer of 120 and a second of 115, the budget goes from 8000 to 9200 (10 times
  120) and 115 is what is handed to \<open>record_trade\<close>: the second and third conjuncts
  are the two price requests in the states in which \<open>sell_stock\<close> makes them. The four
  external calls are the order, the two price requests and the clock read of
  \<open>record_trade\<close>, which then waits for the lock that \<open>sell_stock\<close> holds: the history
  stays empty.
\<close>

theorem sell_two_fetches:
  "sell_stock (broker_stub (\<lambda>n. if n = 1 then Some 120 else if n = 2 then Some 115 else None) True)
     ''AAPL''
     (bot_with 8000 [(''AAPL'', \<lparr>quantity = 10, buy_price = 100, highest_price = 130\<rparr>)])
   = Blocks \<lparr>budget = 9200,
             positions = [(''AAPL'', \<lparr>quantity = 10, buy_price = 100, highest_price = 130\<rparr>)],
             is_running = True, trade_history = [], lock_held = True,
             orders = [(''AAPL'', 10, Sell)], calls = 4\<rparr>
   \<and> fst (get_current_price
            (broker_stub (\<lambda>n. if n = 1 then Some 120 else if n = 2 then Some 115 else None) True)
            ''AAPL''
            \<lparr>budget = 8000,
              positions = [(''AAPL'', \<lparr>quantity = 10, buy_price = 100, highest_price = 130\<rparr>)],
              is_running = True, trade_history = [], lock_held = True,
              orders = [(''AAPL'', 10, Sell)], calls = 1\<rparr>) = 120
   \<and> fst (get_current_price
            (broker_stub (\<lambda>n. if n = 1 then Some 120 else if n = 2 then Some 115 else None) True)
            ''AAPL''
            \<lparr>budget = 9200,
              positions = [(''AAPL'', \<lparr>quantity = 10, buy_price = 100, highest_price = 130\<rparr>)],
              is_running = True, trade_history = [], lock_held = True,
              orders = [(''AAPL'', 10, Sell)], calls = 2\<rparr>) = 115"
  by (simp add: bot_with_def broker_stub_def get_current_price_def and_then_def with_lock_def
      sell_stock_def record_trade_def except_Exception_def)

text \<open>
  C10. A sell whose order is accepted while the price requests fail should still
  complete with a credit of zero, a sell record at price 0 and the position removed.
  The budget is indeed credited 10 times 0, but \<open>record_trade\<close> is called inside the
  \<open>with lock\<close> block of \<open>sell_stock\<close> and acquires the same lock: the thread blocks
  there, no record is appended and the position stays in the store.
\<close>

theorem sell_price_fetch_fails:
  "sell_stock (broker_stub (\<lambda>n. None) True) ''AAPL''
     (bot_with 8000 [(''AAPL'', \<lparr>quantity = 10, buy_price = 100, highest_price = 130\<rparr>)])
   = Blocks \<lparr>budget = 8000,
             positions = [(''AAPL'', \<lparr>quantity = 10, buy_price = 100, highest_price = 130\<rparr>)],
             is_running = True, trade_history = [], lock_held = True,
             orders = [(''AAPL'', 10, Sell)], calls = 4\<rparr>"
  by (simp add: bot_with_def broker_stub_def get_current_price_def and_then_def with_lock_def
      sell_stock_def record_trade_def except_Exception_def)

section \<open>Monitoring\<close>

text \<open>
  The trigger of the monitor loop: handling one entry submits a sell order for its ticker
  exactly when the gain and the drop both reach their thresholds, the drop being taken
  from the peak stored before this price was seen.
\<close>

lemma sell_stock_orders:
  "map_of (positions s) t = Some p \<Longrightarrow>
   orders (state_of (sell_stock a t s)) = orders s @ [(t, quantity p, Sell)]"
  by (simp add: sell_stock_def with_lock_def except_Exception_def and_then_def record_trade_def
      get_current_price_def Let_def split: option.splits prod.splits)

lemma map_of_set_highest_price:
  "map_of (set_highest_price k c d) t =
     (if t = k then map_option (\<lambda>v. v\<lparr>highest_price := c\<rparr>) (map_of d t) else map_of d t)"
  by (induction d) (auto simp: set_highest_price_def)

lemma monitor_item_sells_iff:
  assumes i: "i < length (positions s)"
    and d: "distinct (map fst (positions s))"
    and ti: "positions s ! i = (ticker, info)"
    and nz: "buy_price info \<noteq> 0" "highest_price info \<noteq> 0"
    and lock: "\<not> lock_held s"
    and g: "get_current_price a ticker s = (current_price, s1)"
  shows "orders (state_of (monitor_item a gain_threshold drop_threshold i s)) =
           (if (current_price - buy_price info) / buy_price info * 100 \<ge> gain_threshold
               \<and> (highest_price info - current_price) / highest_price info * 100 \<ge> drop_threshold
            then orders s @ [(ticker, quantity info, Sell)]
            else orders s)"
proof -
  have s1: "s1 = s\<lparr>calls := Suc (calls s)\<rparr>"
    using g get_current_price_state [of a ticker s] by simp
  have "(ticker, info) \<in> set (positions s)" using i ti by (rule nth_positions_mem)
  with d have m: "map_of (positions s) ticker = Some info" by simp
  have a: "orders (state_of (sell_stock a ticker s1)) = orders s @ [(ticker, quantity info, Sell)]"
    using sell_stock_orders [of s1 ticker info a] m by (simp add: s1)
  have b: "orders (state_of (sell_stock a ticker
              (s1\<lparr>positions := set_highest_price ticker current_price (positions s1),
                  lock_held := False\<rparr>)))
           = orders s @ [(ticker, quantity info, Sell)]"
    using sell_stock_orders [of "s1\<lparr>positions := set_highest_price ticker current_price (positions s1),
                  lock_held := False\<rparr>" ticker "info\<lparr>highest_price := current_price\<rparr>" a] m
    by (simp add: s1 map_of_set_highest_price)
  show ?thesis
    using a b nz lock
    by (simp add: monitor_item_def ti g and_then_def with_lock_def Let_def s1)
qed

text \<open>
  C5. In a poll with the market open, a position whose gain and drop from the peak both
  reach their thresholds should be sold: removed from the store, a sell record appended,
  the budget raised by quantity times the sell price. With 10 shares bought at 100, a
  peak of 130, a price of 115 and both thresholds at 10, the poll does submit the sell
  order and raises the budget from 8000 to 9150, and then blocks in \<open>record_trade\<close> on
  the lock \<open>sell_stock\<close> holds: the position is still in the store and the history is
  empty.
\<close>

theorem sell_blocks_on_lock:
  "monitor_poll (broker_stub (\<lambda>n. Some 115) True) 10 10
     (bot_with 8000 [(''AAPL'', \<lparr>quantity = 10, buy_price = 100, highest_price = 130\<rparr>)])
   = Blocks \<lparr>budget = 9150,
             positions = [(''AAPL'', \<lparr>quantity = 10, buy_price = 100, highest_price = 130\<rparr>)],
             is_running = True, trade_history = [], lock_held = True,
             orders = [(''AAPL'', 10, Sell)], calls = 6\<rparr>"
  by (simp add: bot_with_def broker_stub_def monitor_poll_def is_market_open_def
      monitor_item_def get_current_price_def and_then_def with_lock_def set_highest_price_def
      sell_stock_def record_trade_def except_Exception_def)

text \<open>
  C6. The store without positions satisfies the invariant that no peak lies below its
  buy price; \<open>buy_stock\<close>, \<open>sell_stock\<close> and any number of polls of
  \<open>monitor_prices\<close>, under any answers of the broker and however the call ends, keep
  it; and between \<open>n\<close> polls and \<open>n + m\<close> polls no position's highest price falls
  and no buy price changes.
\<close>

theorem highest_price_invariant:
  assumes "peak_invariant s"
  shows "peak_invariant (s\<lparr>positions := []\<rparr>)
         \<and> peak_invariant (state_of (buy_stock a ticker price max_position_size s))
         \<and> peak_invariant (state_of (sell_stock a ticker s))
         \<and> peak_invariant (loop_state (monitor_prices n a gain_threshold drop_threshold s))
         \<and> peaks_grow (loop_state (monitor_prices n a gain_threshold drop_threshold s))
               (loop_state (monitor_prices (n + m) a gain_threshold drop_threshold s))"
proof (intro conjI)
  show "peak_invariant (s\<lparr>positions := []\<rparr>)"
    by (simp add: peak_invariant_def)
  show "peak_invariant (state_of (buy_stock a ticker price max_position_size s))"
    using assms by (rule buy_stock_invariant)
  show "peak_invariant (state_of (sell_stock a ticker s))"
    using assms sell_stock_step by (rule step_rel_invariant)
  show inv: "peak_invariant (loop_state (monitor_prices n a gain_threshold drop_threshold s))"
    using assms monitor_prices_step by (rule step_rel_invariant)
  show "peaks_grow (loop_state (monitor_prices n a gain_threshold drop_threshold s))
               (loop_state (monitor_prices (n + m) a gain_threshold drop_threshold s))"
    using inv monitor_prices_later [of n a gain_threshold drop_threshold s m]
    by (simp add: step_rel_def peak_invariant_def)
qed

theorem highest_price_invariant_witness:
  "loop_state (monitor_prices (Suc 0)
       (broker_stub (\<lambda>n. if n = 1 then Some 130 else Some 120) True) 20 10
       (bot_with 10000 [(''AAPL'', \<lparr>quantity = 10, buy_price = 100, highest_price = 100\<rparr>)]))
     = \<lparr>budget = 10000,
        positions = [(''AAPL'', \<lparr>quantity = 10, buy_price = 100, highest_price = 130\<rparr>)],
        is_running = True, trade_history = [], lock_held = False, orders = [], calls = 2\<rparr>
   \<and> loop_state (monitor_prices (Suc 0 + Suc 0)
       (broker_stub (\<lambda>n. if n = 1 then Some 130 else Some 120) True) 20 10
       (bot_with 10000 [(''AAPL'', \<lparr>quantity = 10, buy_price = 100, highest_price = 100\<rparr>)]))
     = \<lparr>budget = 10000,
        positions = [(''AAPL'', \<lparr>quantity = 10, buy_price = 100, highest_price = 130\<rparr>)],
        is_running = True, trade_history = [], lock_held = False, orders = [], calls = 4\<rparr>"
proof -
  have inv: "peak_invariant
     (bot_with 10000 [(''AAPL'', \<lparr>quantity = 10, buy_price = 100, highest_price = 100\<rparr>)])"
    by (simp add: peak_invariant_def bot_with_def)
  show ?thesis
    using highest_price_invariant
            [OF inv, of "broker_stub (\<lambda>n. if n = 1 then Some 130 else Some 120) True"
               "''AAPL''" 50 "1 / 5" "Suc 0" 20 10 "Suc 0"]
    by (simp add: bot_with_def broker_stub_def monitor_poll_def is_market_open_def
        monitor_item_def get_current_price_def and_then_def with_lock_def set_highest_price_def
        numeral_2_eq_2 eval_nat_numeral)
qed

end
